theory Spec2Isabelle
  imports Complex_Main "HOL-Library.Word"
begin

section \<open>code_gen: the symbolic I/Q waveform generator\<close>

text \<open>
  A shallow embedding of \<^verbatim>\<open>src/code_gen.c\<close>. The conventions of the model:
  \<^item> a C \<^verbatim>\<open>double\<close> is a \<^typ>\<open>real\<close>. Where the program turns a double into an
    integer (the number of samples of a tone, the byte of a sample) and where
    it prints one (the elapsed time), each operation of the expression is
    followed by the rounding \<open>fl\<close> of the binary64 format, since there one
    rounding can change the result. The sample values themselves (lines 136,
    137 and 153 to 162) and the levels (lines 203 to 218) are computed in exact
    arithmetic;
  \<^item> a \<^verbatim>\<open>size_t\<close> is a \<^typ>\<open>nat\<close> and an \<^verbatim>\<open>int\<close> is an \<^typ>\<open>int\<close>: the counters of the
    program only go up, and the one subtraction, \<^verbatim>\<open>end - t\<close>, is made under
    \<^verbatim>\<open>t < end\<close>. A conversion from \<^verbatim>\<open>double\<close> of a value that the integer type
    cannot hold is undefined in C; the model gives it the result of the
    conversion on x86-64;
  \<^item> a \<^verbatim>\<open>uint8_t\<close> is an \<open>8 word\<close>;
  \<^item> the file-scope variables that \<^verbatim>\<open>main\<close> sets from the command line and that
    stay fixed afterwards are the record \<open>config\<close>; the ones that change while
    samples are generated are the record \<open>state\<close>, passed explicitly;
  \<^item> the functions of libc and of the headers \<^verbatim>\<open>fast_osc.h\<close> and \<^verbatim>\<open>argparse.h\<close>,
    whose code is not part of the sources, are the parameters of the record
    \<open>extern\<close>;
  \<^item> what a run takes from outside the program (the signals and when they
    arrive, the memory that \<^verbatim>\<open>malloc\<close> returns, the readings of the clock) is
    the record \<open>world\<close>.
\<close>

subsection \<open>Data\<close>

type_synonym u8 = "8 word"

text \<open>
  Modelled from the spec: the declaration of \<^verbatim>\<open>tone_t\<close> lives in \<^verbatim>\<open>code_parse.h\<close>,
  which is missing. The fields are the ones \<^verbatim>\<open>gen\<close> reads: a signed real
  frequency, a signed integer level and an unsigned integer duration.
\<close>

record tone =
  hz :: real
  db :: int
  us :: nat

text \<open>The file-scope configuration variables (lines 98-101 and 104).\<close>

record config =
  sample_rate :: real
  noise_floor :: real
  noise_signal :: real
  gain :: real
  out_block_size :: nat

text \<open>
  The functions the code calls and does not define. \<open>'g\<close> is the hidden state of
  the generator behind \<^verbatim>\<open>srand\<close> and \<^verbatim>\<open>rand\<close>; \<open>'l\<close> is the handle \<^verbatim>\<open>lut_osc_t *\<close>;
  \<open>printf_f\<close> is the text that \<^verbatim>\<open>printf\<close> produces for a double under \<^verbatim>\<open>%f\<close>.
\<close>

record ('g, 'l) extern =
  srand :: "nat \<Rightarrow> 'g"
  rand :: "'g \<Rightarrow> int \<times> 'g"
  RAND_MAX :: int
  get_lut_osc :: "nat \<Rightarrow> nat \<Rightarrow> 'l"
  lut_oscc :: "'l \<Rightarrow> nat \<Rightarrow> real"
  lut_oscs :: "'l \<Rightarrow> nat \<Rightarrow> real"
  db_to_mag :: "int \<Rightarrow> real"
  atofs :: "string \<Rightarrow> real"
  printf_f :: "real \<Rightarrow> string"
  CLOCKS_PER_SEC :: int

text \<open>
  The file descriptor \<^verbatim>\<open>fd\<close>: -1 before \<^verbatim>\<open>gen\<close> sets it, then the standard
  output or the file opened at the given path.
\<close>

datatype out_fd = No_fd | Stdout_fd | File_fd string

text \<open>
  The mutable state. \<open>out_block\<close> is the memory that starts at the pointer
  \<^verbatim>\<open>out_block\<close>, indexed by byte offset: \<^verbatim>\<open>malloc\<close> reserves the offsets below
  \<open>out_block_size\<close> only, and the C code stores through \<^verbatim>\<open>out_block[out_block_pos++]\<close>
  with no range test, so a store at a larger offset lands in the memory behind
  the buffer. \<open>writes\<close> lists, in call order, the blocks handed to
  \<^verbatim>\<open>write(fd, out_block, out_block_size)\<close>. \<open>printed\<close> is the text sent to the
  standard output stream with \<^verbatim>\<open>printf\<close>. \<open>do_exit\<close> is the flag the signal
  handler sets.
\<close>

record 'g state =
  out_block :: "nat \<Rightarrow> u8"
  out_block_pos :: nat
  writes :: "u8 list list"
  printed :: string
  fd :: out_fd
  rand_state :: 'g
  do_exit :: bool

text \<open>
  What a run takes from outside. \<open>signal_early\<close>: a signal arrived before the
  loop of \<^verbatim>\<open>gen\<close> started. \<open>signals n t\<close>: the handler runs during the pass
  number \<open>n\<close> of the loop of \<^verbatim>\<open>gen\<close> (counted from 0), just before the test
  number \<open>t\<close> of the sample loop of that tone. \<open>malloc_result\<close>: what
  \<^verbatim>\<open>malloc(out_block_size)\<close> returns, \<open>None\<close> for a null pointer and otherwise
  the memory, whose contents are arbitrary. \<open>clock_start\<close> and \<open>clock_stop\<close>:
  the two values of \<^verbatim>\<open>clock()\<close>.
\<close>

record world =
  signal_early :: bool
  signals :: "nat \<Rightarrow> nat \<Rightarrow> bool"
  malloc_result :: "(nat \<Rightarrow> u8) option"
  clock_start :: int
  clock_stop :: int

datatype error = Alloc_failed | Unterminated_timeline

definition DEFAULT_BUF_LENGTH :: nat where
  "DEFAULT_BUF_LENGTH = 1 * 16384"

definition MINIMAL_BUF_LENGTH :: nat where
  "MINIMAL_BUF_LENGTH = 512"

definition MAXIMAL_BUF_LENGTH :: nat where
  "MAXIMAL_BUF_LENGTH = 256 * 16384"

subsection \<open>Rounding to binary64\<close>

text \<open>Rounding to the nearest integer, a tie going to the even one.\<close>

definition rne :: "real \<Rightarrow> int" where
  "rne y =
     (let f = \<lfloor>y\<rfloor>; d = y - of_int f
      in if d < 1 / 2 then f else if 1 / 2 < d then f + 1 else if even f then f else f + 1)"

text \<open>
  The exponent of a value, not below the one of the subnormal numbers, and the
  weight of the last of the 53 bits of its significand.
\<close>

definition expo :: "real \<Rightarrow> int" where
  "expo x = max \<lfloor>log 2 \<bar>x\<bar>\<rfloor> (- 1022)"

definition ulp :: "real \<Rightarrow> real" where
  "ulp x = 2 powr (of_int (expo x) - 52)"

text \<open>
  The result of an operation on doubles is the exact result rounded to the
  nearest double, a tie going to the even significand (IEEE 754, the default
  mode). Infinities and NaN are not modelled: a result beyond the largest
  double is rounded to 53 bits like the others.
\<close>

definition fl :: "real \<Rightarrow> real" where
  "fl x = (if x = 0 then 0 else of_int (rne (x / ulp x)) * ulp x)"

subsection \<open>Conversions\<close>

text \<open>A conversion of a double to an integer type discards the fraction.\<close>

definition trunc :: "real \<Rightarrow> int" where
  "trunc x = (if x < 0 then \<lceil>x\<rceil> else \<lfloor>x\<rfloor>)"

text \<open>
  The cast \<^verbatim>\<open>(int)\<close> of a double. When the truncated value does not fit 32 bits
  the cast is undefined in C; the conversion instruction of x86-64
  (\<^verbatim>\<open>cvttsd2si\<close>) then gives the smallest \<^verbatim>\<open>int\<close>.
\<close>

definition int_of_double :: "real \<Rightarrow> int" where
  "int_of_double x =
     (let k = trunc x in if - (2 ^ 31) \<le> k \<and> k < 2 ^ 31 then k else - (2 ^ 31))"

text \<open>
  The cast \<^verbatim>\<open>(size_t)\<close> of a double. When the truncated value is negative or
  does not fit 64 bits the cast is undefined in C; the code that compilers
  emit for x86-64 converts through the signed 64-bit instruction, which wraps
  a negative value around \<open>2 ^ 64\<close>, and gives \<open>2 ^ 63\<close> below that range and 0
  above.
\<close>

definition size_t_of_double :: "real \<Rightarrow> nat" where
  "size_t_of_double x =
     (let k = trunc x
      in if 0 \<le> k \<and> k < 2 ^ 64 then nat k
         else if - (2 ^ 63) \<le> k \<and> k < 0 then nat (2 ^ 64 + k)
         else if k < - (2 ^ 63) then 2 ^ 63
         else 0)"

subsection \<open>The signal handler, the noise source and the encoder\<close>

definition sighandler :: "'g state \<Rightarrow> 'g state" where
  "sighandler s = s\<lparr>do_exit := True\<rparr>"

text \<open>A point of the run where the handler runs if a signal has arrived.\<close>

definition deliver :: "bool \<Rightarrow> 'g state \<Rightarrow> 'g state" where
  "deliver arrives s = (if arrives then sighandler s else s)"

definition randf :: "('g, 'l) extern \<Rightarrow> 'g state \<Rightarrow> real \<times> 'g state" where
  "randf X s =
     (case rand X (rand_state s) of
        (r, g) \<Rightarrow> (real_of_int r / real_of_int (RAND_MAX X), s\<lparr>rand_state := g\<rparr>))"

definition bound :: "int \<Rightarrow> int" where
  "bound x = (if x < 0 then 0 else if x > 255 then 255 else x)"

text \<open>
  The expression \<^verbatim>\<open>(uint8_t)bound((int)((i + 1.0) * scale))\<close> of lines 122 and 123,
  with \<^verbatim>\<open>scale = 127.5\<close>: an addition and a multiplication of doubles, each
  rounded, then the cast.
\<close>

definition to_u8 :: "real \<Rightarrow> u8" where
  "to_u8 v =
     (let scale = 127.5 in word_of_int (bound (int_of_double (fl (fl (v + 1.0) * scale)))))"

definition signal_out :: "config \<Rightarrow> real \<Rightarrow> real \<Rightarrow> 'g state \<Rightarrow> 'g state" where
  "signal_out C i q s =
     (let i8 = to_u8 i;
          q8 = to_u8 q;
          s1 = s\<lparr>out_block := (out_block s)(out_block_pos s := i8),
                 out_block_pos := out_block_pos s + 1\<rparr>;
          s2 = s1\<lparr>out_block := (out_block s1)(out_block_pos s1 := q8),
                   out_block_pos := out_block_pos s1 + 1\<rparr>
      in if out_block_pos s2 = out_block_size C
         then s2\<lparr>writes := writes s2 @ [map (out_block s2) [0..<out_block_size C]],
                 out_block_pos := 0\<rparr>
         else s2)"

subsection \<open>The number of samples of a tone\<close>

text \<open>
  The expression \<^verbatim>\<open>(size_t)(time_us * sample_rate / 1000000)\<close> of lines 134 and
  149: \<^verbatim>\<open>time_us\<close> is converted to a double, multiplied and divided in doubles,
  and the quotient is converted back.
\<close>

definition sample_end :: "config \<Rightarrow> nat \<Rightarrow> nat" where
  "sample_end C time_us =
     size_t_of_double (fl (fl (fl (real time_us) * sample_rate C) / 1000000))"

subsection \<open>Noise-only tones\<close>

text \<open>Lines 136 and 137: the two draws of one sample pair.\<close>

definition noise_sample ::
  "('g, 'l) extern \<Rightarrow> config \<Rightarrow> 'g state \<Rightarrow> (real \<times> real) \<times> 'g state" where
  "noise_sample X C s =
     (case randf X s of (r1, s1) \<Rightarrow>
      case randf X s1 of (r2, s2) \<Rightarrow>
        (((r1 - 0.5) * noise_floor C, (r2 - 0.5) * noise_floor C), s2))"

text \<open>
  The sample loop. The C code has no statement for the signal handler: it runs
  whenever a signal arrives. The model lets it run at the test of the loop, as
  \<open>sg\<close> tells: \<open>sg t\<close> says that a signal arrives just before the test number
  \<open>t\<close>. The last test, the one that ends the loop, stands for every moment
  from there to the next test of the loop of \<^verbatim>\<open>gen\<close>.
\<close>

function add_noise_loop ::
  "('g, 'l) extern \<Rightarrow> config \<Rightarrow> (nat \<Rightarrow> bool) \<Rightarrow> nat \<Rightarrow> nat \<Rightarrow> 'g state \<Rightarrow> 'g state" where
  "add_noise_loop X C sg endt t s =
     (if t < endt
      then (case noise_sample X C (deliver (sg t) s) of
              ((x, y), s') \<Rightarrow> add_noise_loop X C sg endt (t + 1) (signal_out C x y s'))
      else deliver (sg t) s)"
  by pat_completeness auto
termination
  by (relation "measure (\<lambda>(X, C, sg, endt, t, s). endt - t)") auto

definition add_noise ::
  "('g, 'l) extern \<Rightarrow> config \<Rightarrow> (nat \<Rightarrow> bool) \<Rightarrow> nat \<Rightarrow> int \<Rightarrow> 'g state \<Rightarrow> 'g state" where
  "add_noise X C sg time_us db_arg s =
     (let endt = sample_end C time_us
      in add_noise_loop X C sg endt 0 s)"

subsection \<open>Oscillator tones\<close>

text \<open>Lines 153 and 154: the ramp in and the ramp out.\<close>

definition att_in :: "nat \<Rightarrow> nat \<Rightarrow> real" where
  "att_in att_steps t = (if t < att_steps then (1.0 / real att_steps) * real t else 1.0)"

definition att_out :: "nat \<Rightarrow> nat \<Rightarrow> nat \<Rightarrow> real" where
  "att_out att_steps endt t =
     (if t + att_steps > endt then (1.0 / real att_steps) * real (endt - t) else 1.0)"

text \<open>Lines 152 to 162: one sample pair of a tone, before it is encoded.\<close>

definition sine_sample ::
  "('g, 'l) extern \<Rightarrow> config \<Rightarrow> 'l \<Rightarrow> real \<Rightarrow> nat \<Rightarrow> nat \<Rightarrow> nat \<Rightarrow> 'g state
     \<Rightarrow> (real \<times> real) \<times> 'g state" where
  "sine_sample X C lut att att_steps endt t s =
     (let x = lut_oscc X lut t * gain C * att * att_in att_steps t * att_out att_steps endt t;
          y = lut_oscs X lut t * gain C * att * att_in att_steps t * att_out att_steps endt t
      in case randf X s of (r1, s1) \<Rightarrow>
         case randf X s1 of (r2, s2) \<Rightarrow>
           ((x + (r1 - 0.5) * noise_signal C, y + (r2 - 0.5) * noise_signal C), s2))"

function add_sine_loop ::
  "('g, 'l) extern \<Rightarrow> config \<Rightarrow> (nat \<Rightarrow> bool) \<Rightarrow> 'l \<Rightarrow> real \<Rightarrow> nat \<Rightarrow> nat \<Rightarrow> nat \<Rightarrow> 'g state
     \<Rightarrow> 'g state" where
  "add_sine_loop X C sg lut att att_steps endt t s =
     (if t < endt
      then (case sine_sample X C lut att att_steps endt t (deliver (sg t) s) of
              ((x, y), s') \<Rightarrow>
                add_sine_loop X C sg lut att att_steps endt (t + 1) (signal_out C x y s'))
      else deliver (sg t) s)"
  by pat_completeness auto
termination
  by (relation "measure (\<lambda>(X, C, sg, lut, att, att_steps, endt, t, s). endt - t)") auto

definition add_sine ::
  "('g, 'l) extern \<Rightarrow> config \<Rightarrow> (nat \<Rightarrow> bool) \<Rightarrow> real \<Rightarrow> nat \<Rightarrow> int \<Rightarrow> 'g state \<Rightarrow> 'g state" where
  "add_sine X C sg freq_hz time_us db_arg s =
     (let lut = get_lut_osc X (size_t_of_double freq_hz) (size_t_of_double (sample_rate C));
          att = db_to_mag X db_arg;
          att_steps = 100;
          endt = sample_end C time_us
      in add_sine_loop X C sg lut att att_steps endt 0 s)"

subsection \<open>The engine\<close>

text \<open>
  Lines 186 to 191: the body of the loop over the tones; \<open>sg\<close> tells when
  signals arrive while it runs.
\<close>

definition gen_tone ::
  "('g, 'l) extern \<Rightarrow> config \<Rightarrow> (nat \<Rightarrow> bool) \<Rightarrow> tone \<Rightarrow> 'g state \<Rightarrow> 'g state" where
  "gen_tone X C sg tn s =
     (if db tn < -24 then add_noise X C sg (us tn) (db tn) s
      else add_sine X C sg (hz tn) (us tn) (db tn) s)"

text \<open>
  The timeline is the array \<^verbatim>\<open>symbol->tone\<close>, a list here. The C loop ends at
  the first tone with \<^verbatim>\<open>us == 0\<close>; an array without one is read past its end,
  which the model reports as an error. \<open>sig n\<close> tells when signals arrive
  during the pass number \<open>n\<close>; a signal ahead of the first test is \<open>do_exit\<close>
  of the starting state.
\<close>

fun gen_loop ::
  "('g, 'l) extern \<Rightarrow> config \<Rightarrow> (nat \<Rightarrow> nat \<Rightarrow> bool) \<Rightarrow> nat \<Rightarrow> tone list \<Rightarrow> 'g state
     \<Rightarrow> error + 'g state" where
  "gen_loop X C sig n [] s = Inl Unterminated_timeline"
| "gen_loop X C sig n (tn # rest) s =
     (if us tn \<noteq> 0 \<and> \<not> do_exit s
      then gen_loop X C sig (n + 1) rest (gen_tone X C (sig n) tn s)
      else Inr s)"

text \<open>
  Lines 183 and 194 to 195: the elapsed time in milliseconds, computed in
  doubles from the two readings of the clock.
\<close>

definition elapsed_ms :: "('g, 'l) extern \<Rightarrow> world \<Rightarrow> real" where
  "elapsed_ms X W =
     fl (fl (fl (of_int (clock_stop W - clock_start W)) * 1000.0)
           / fl (of_int (CLOCKS_PER_SEC X)))"

text \<open>
  \<^verbatim>\<open>gen\<close>. The descriptor is the standard output for a null, an empty or a
  \<^verbatim>\<open>"-"\<close> path, and the file at the path otherwise. A null pointer from
  \<^verbatim>\<open>malloc\<close> ends the program (\<^verbatim>\<open>exit(1)\<close>). After the loop, line 196 prints the
  elapsed time with \<^verbatim>\<open>printf\<close>, that is to the standard output stream. What is
  left in the buffer is freed without being written. The results of \<^verbatim>\<open>open\<close>
  and of \<^verbatim>\<open>write\<close> are not tested by the code and not modelled.
\<close>

definition gen ::
  "('g, 'l) extern \<Rightarrow> config \<Rightarrow> world \<Rightarrow> string option \<Rightarrow> tone list \<Rightarrow> 'g state
     \<Rightarrow> error + 'g state" where
  "gen X C W outpath symbol s =
     (let s1 = s\<lparr>fd := (case outpath of
                           None \<Rightarrow> Stdout_fd
                         | Some p \<Rightarrow> if p = [] \<or> p = ''-'' then Stdout_fd else File_fd p)\<rparr>
      in case malloc_result W of
           None \<Rightarrow> Inl Alloc_failed
         | Some m \<Rightarrow>
             (case gen_loop X C (signals W) 0 symbol (s1\<lparr>out_block := m\<rparr>) of
                Inl e \<Rightarrow> Inl e
              | Inr s2 \<Rightarrow>
                  Inr (s2\<lparr>printed := printed s2 @ ''Time elapsed in ms: ''
                              @ printf_f X (elapsed_ms X W) @ [CHR 0x0A]\<rparr>)))"

subsection \<open>The command line\<close>

definition noise_pp_level :: "('g, 'l) extern \<Rightarrow> string \<Rightarrow> real" where
  "noise_pp_level X arg =
     (let level = atofs X arg;
          level = (if level < 0 then 10 powr (1.0 / 20.0 * level) else level)
      in level * 2 * sqrt (1.0 / 2.0 * 3.0 / 2.0))"

definition sine_pk_level :: "('g, 'l) extern \<Rightarrow> string \<Rightarrow> real" where
  "sine_pk_level X arg =
     (let level = atofs X arg
      in if level \<le> 0 then 10 powr (1.0 / 20.0 * level) else level)"

text \<open>Lines 283 to 289 of \<^verbatim>\<open>main\<close>: the test of the block size.\<close>

definition check_block_size :: "nat \<Rightarrow> nat" where
  "check_block_size n =
     (if n < MINIMAL_BUF_LENGTH \<or> n > MAXIMAL_BUF_LENGTH then DEFAULT_BUF_LENGTH else n)"

text \<open>
  Lines 283 to 305 of \<^verbatim>\<open>main\<close>, after the options are parsed into \<open>C\<close>, the
  seed and the timeline, and the one argument left is the output path: the
  block size is checked, the generator is seeded, \<^verbatim>\<open>gen\<close> runs. (With no
  argument left \<^verbatim>\<open>main\<close> exits before; with more than one it prints the usage.)
\<close>

definition main_run ::
  "('g, 'l) extern \<Rightarrow> config \<Rightarrow> world \<Rightarrow> nat \<Rightarrow> tone list \<Rightarrow> string option
     \<Rightarrow> error + 'g state" where
  "main_run X C W rand_seed symbol outpath =
     gen X (C\<lparr>out_block_size := check_block_size (out_block_size C)\<rparr>) W outpath symbol
       \<lparr>out_block = (\<lambda>_. 0), out_block_pos = 0, writes = [], printed = [], fd = No_fd,
        rand_state = srand X rand_seed, do_exit = signal_early W\<rparr>"

subsection \<open>Notions used to state the properties\<close>

text \<open>A run of sample pairs handed to the sink one after the other.\<close>

definition signal_out_all :: "config \<Rightarrow> (real \<times> real) list \<Rightarrow> 'g state \<Rightarrow> 'g state" where
  "signal_out_all C ps s = fold (\<lambda>(i, q). signal_out C i q) ps s"


text \<open>The bytes of a run of sample pairs, in the interleaved order I, Q, I, Q.\<close>

definition encode_pairs :: "(real \<times> real) list \<Rightarrow> u8 list" where
  "encode_pairs ps = concat (map (\<lambda>(i, q). [to_u8 i, to_u8 q]) ps)"



text \<open>
  \<open>n\<close> pairs of draws from the generator in state \<open>g\<close>, each draw divided by
  \<open>RAND_MAX\<close>, centred and scaled by the amplitude \<open>a\<close>; and the state of the
  generator after \<open>n\<close> draws.
\<close>

fun noise_draws :: "('g, 'l) extern \<Rightarrow> real \<Rightarrow> nat \<Rightarrow> 'g \<Rightarrow> (real \<times> real) list" where
  "noise_draws X a 0 g = []"
| "noise_draws X a (Suc n) g =
     (case rand X g of (r1, g1) \<Rightarrow>
      case rand X g1 of (r2, g2) \<Rightarrow>
        ((real_of_int r1 / real_of_int (RAND_MAX X) - 0.5) * a,
         (real_of_int r2 / real_of_int (RAND_MAX X) - 0.5) * a) # noise_draws X a n g2)"

fun rand_skip :: "('g, 'l) extern \<Rightarrow> nat \<Rightarrow> 'g \<Rightarrow> 'g" where
  "rand_skip X 0 g = g"
| "rand_skip X (Suc n) g = rand_skip X n (snd (rand X g))"

text \<open>
  \<open>n\<close> sample pairs of an oscillator tone from the sample number \<open>t\<close> on, with
  the generator in state \<open>g\<close>: the oscillator term with its gain, amplitude and
  ramps, plus a centred draw scaled by \<open>noise_signal\<close>.
\<close>

fun sine_draws ::
  "('g, 'l) extern \<Rightarrow> config \<Rightarrow> 'l \<Rightarrow> real \<Rightarrow> nat \<Rightarrow> nat \<Rightarrow> nat \<Rightarrow> nat \<Rightarrow> 'g
     \<Rightarrow> (real \<times> real) list" where
  "sine_draws X C lut att att_steps endt t 0 g = []"
| "sine_draws X C lut att att_steps endt t (Suc n) g =
     (case rand X g of (r1, g1) \<Rightarrow>
      case rand X g1 of (r2, g2) \<Rightarrow>
        (lut_oscc X lut t * gain C * att * att_in att_steps t * att_out att_steps endt t
           + (real_of_int r1 / real_of_int (RAND_MAX X) - 0.5) * noise_signal C,
         lut_oscs X lut t * gain C * att * att_in att_steps t * att_out att_steps endt t
           + (real_of_int r2 / real_of_int (RAND_MAX X) - 0.5) * noise_signal C)
        # sine_draws X C lut att att_steps endt (t + 1) n g2)"

text \<open>The sample pairs of one tone, by the branch that \<^verbatim>\<open>gen\<close> takes for it.\<close>

definition tone_pairs :: "('g, 'l) extern \<Rightarrow> config \<Rightarrow> tone \<Rightarrow> 'g \<Rightarrow> (real \<times> real) list" where
  "tone_pairs X C tn g =
     (let n = sample_end C (us tn)
      in if db tn < -24 then noise_draws X (noise_floor C) n g
         else sine_draws X C
                (get_lut_osc X (size_t_of_double (hz tn)) (size_t_of_double (sample_rate C)))
                (db_to_mag X (db tn)) 100 n 0 n g)"

text \<open>
  The disturbance of a tone sample: the difference between the sample and the
  sample the same code computes with \<open>noise_signal\<close> set to 0.
\<close>

definition noise_part ::
  "('g, 'l) extern \<Rightarrow> config \<Rightarrow> 'l \<Rightarrow> real \<Rightarrow> nat \<Rightarrow> nat \<Rightarrow> nat \<Rightarrow> 'g state \<Rightarrow> real \<times> real" where
  "noise_part X C lut att att_steps endt t s =
     (case fst (sine_sample X C lut att att_steps endt t s) of (x, y) \<Rightarrow>
      case fst (sine_sample X (C\<lparr>noise_signal := 0\<rparr>) lut att att_steps endt t s) of (x0, y0) \<Rightarrow>
        (x - x0, y - y0))"

text \<open>A signal arrives at one of the tests \<open>t\<close> to \<open>endt\<close> of a sample loop.\<close>

definition signalled :: "(nat \<Rightarrow> bool) \<Rightarrow> nat \<Rightarrow> nat \<Rightarrow> bool" where
  "signalled sg t endt \<longleftrightarrow> (\<exists>i \<in> {t..endt}. sg i)"

text \<open>No signal at all.\<close>

definition no_signal :: "nat \<Rightarrow> bool" where
  "no_signal t = False"

text \<open>
  What the standard output receives: the blocks, when the descriptor is the
  standard output, and then the text printed after the loop.
\<close>

definition stdout_stream :: "'g state \<Rightarrow> u8 list" where
  "stdout_stream s =
     (if fd s = Stdout_fd then concat (writes s) else []) @ map of_char (printed s)"

text \<open>
  Two states that no later step of the program can tell apart: they agree on
  everything but the memory at and above the cursor, which is overwritten
  before it is read.
\<close>

definition same_output :: "'g state \<Rightarrow> 'g state \<Rightarrow> bool" where
  "same_output s1 s2 \<longleftrightarrow>
     out_block_pos s1 = out_block_pos s2 \<and> writes s1 = writes s2 \<and>
     printed s1 = printed s2 \<and> fd s1 = fd s2 \<and>
     rand_state s1 = rand_state s2 \<and> do_exit s1 = do_exit s2 \<and>
     (\<forall>i < out_block_pos s1. out_block s1 i = out_block s2 i)"

subsection \<open>A concrete instance\<close>

text \<open>
  One choice of the external functions, of the configuration, of the world and
  of the starting state, for evaluating the model: a linear congruential
  generator with 15-bit results, a constant oscillator, a \<^verbatim>\<open>%f\<close> that prints
  the integer part and six decimals, a clock that counts microseconds, the
  defaults of lines 98 to 104, no signal.
\<close>

definition digit :: "nat \<Rightarrow> char" where
  "digit n = ''0123456789'' ! (n mod 10)"

function show_nat :: "nat \<Rightarrow> string" where
  "show_nat n = (if n < 10 then [digit n] else show_nat (n div 10) @ [digit n])"
  by pat_completeness auto
termination
  by (relation "measure (\<lambda>n. n)") auto

definition demo_printf_f :: "real \<Rightarrow> string" where
  "demo_printf_f x =
     (let n = nat \<lfloor>x * 1000000\<rfloor>
      in show_nat (n div 1000000) @ ''.''
         @ [digit (n div 100000), digit (n div 10000), digit (n div 1000),
            digit (n div 100), digit (n div 10), digit n])"

definition demo_extern :: "(nat, nat \<times> nat) extern" where
  "demo_extern =
     \<lparr>srand = (\<lambda>seed. seed),
      rand = (\<lambda>g. (int (g mod 32768), (g * 1103515245 + 12345) mod 2147483648)),
      RAND_MAX = 32767,
      get_lut_osc = (\<lambda>f r. (f, r)),
      lut_oscc = (\<lambda>lut t. 1),
      lut_oscs = (\<lambda>lut t. 0),
      db_to_mag = (\<lambda>d. 1),
      atofs = (\<lambda>a. 0),
      printf_f = demo_printf_f,
      CLOCKS_PER_SEC = 1000000\<rparr>"

definition demo_config :: config where
  "demo_config =
     \<lparr>sample_rate = 1000000, noise_floor = 0.1 * 2, noise_signal = 0.05 * 2, gain = 1.0,
      out_block_size = DEFAULT_BUF_LENGTH\<rparr>"

definition demo_world :: world where
  "demo_world =
     \<lparr>signal_early = False, signals = (\<lambda>n. no_signal), malloc_result = Some (\<lambda>a. 0),
      clock_start = 0, clock_stop = 1000\<rparr>"

definition demo_state :: "nat state" where
  "demo_state =
     \<lparr>out_block = (\<lambda>_. 0), out_block_pos = 0, writes = [], printed = [], fd = Stdout_fd,
      rand_state = 1, do_exit = False\<rparr>"

section \<open>Properties\<close>

declare add_noise_loop.simps [simp del]
declare add_sine_loop.simps [simp del]
declare show_nat.simps [simp del]

subsection \<open>Rounding\<close>

lemma rne_bounds: "\<lfloor>y\<rfloor> \<le> rne y \<and> rne y \<le> \<lfloor>y\<rfloor> + 1"
  by (simp add: rne_def Let_def)

lemma rne_of_int: "rne (of_int n) = n"
  by (simp add: rne_def Let_def)

lemma rne_error: "\<bar>of_int (rne y) - y\<bar> \<le> 1 / 2"
proof -
  have "of_int \<lfloor>y\<rfloor> \<le> y" "y < of_int \<lfloor>y\<rfloor> + 1" by linarith+
  then show ?thesis by (auto simp add: rne_def Let_def abs_le_iff)
qed

lemma rne_mono:
  assumes "y \<le> z"
  shows "rne y \<le> rne z"
proof (cases "\<lfloor>y\<rfloor> = \<lfloor>z\<rfloor>")
  case True
  have "y - of_int \<lfloor>y\<rfloor> \<le> z - of_int \<lfloor>z\<rfloor>" using assms True by simp
  then show ?thesis using True by (auto simp add: rne_def Let_def)
next
  case False
  have "\<lfloor>y\<rfloor> \<le> \<lfloor>z\<rfloor>" using assms by (rule floor_mono)
  with False have "\<lfloor>y\<rfloor> + 1 \<le> \<lfloor>z\<rfloor>" by simp
  then show ?thesis using rne_bounds [of y] rne_bounds [of z] by linarith
qed

lemma rne_ge_int: "of_int n \<le> y \<Longrightarrow> n \<le> rne y"
  using rne_mono [of "of_int n" y] by (simp add: rne_of_int)

lemma rne_le_int: "y \<le> of_int n \<Longrightarrow> rne y \<le> n"
  using rne_mono [of y "of_int n"] by (simp add: rne_of_int)

lemma fl_eq: "x \<noteq> 0 \<Longrightarrow> fl x = of_int (rne (x / ulp x)) * ulp x"
  by (simp add: fl_def)

lemma fl_0: "fl 0 = 0"
  by (simp add: fl_def)

lemma ulp_pos: "0 < ulp x"
  by (simp add: ulp_def)

lemma expo_upper:
  assumes "x \<noteq> 0"
  shows "\<bar>x\<bar> < 2 powr (of_int (expo x) + 1)"
proof -
  have "0 < \<bar>x\<bar>" using assms by simp
  then have "\<bar>x\<bar> < 2 powr (of_int \<lfloor>log 2 \<bar>x\<bar>\<rfloor> + 1)"
    using floor_log_eq_powr_iff [of "\<bar>x\<bar>" 2 "\<lfloor>log 2 \<bar>x\<bar>\<rfloor>"] by simp
  also have "\<dots> \<le> 2 powr (of_int (expo x) + 1)"
    by (rule powr_mono) (simp_all add: expo_def)
  finally show ?thesis .
qed

lemma expo_lower:
  assumes "2 powr (- 1022) \<le> \<bar>x\<bar>"
  shows "2 powr (of_int (expo x)) \<le> \<bar>x\<bar>"
proof -
  have pos: "0 < \<bar>x\<bar>" using assms powr_gt_zero [of 2 "- 1022"] by linarith
  have "- 1022 \<le> log 2 \<bar>x\<bar>"
    using assms pos by (simp add: le_log_iff)
  then have "- 1022 \<le> \<lfloor>log 2 \<bar>x\<bar>\<rfloor>" by (simp add: le_floor_iff)
  then have e: "expo x = \<lfloor>log 2 \<bar>x\<bar>\<rfloor>" by (simp add: expo_def)
  show ?thesis
    unfolding e using floor_log_eq_powr_iff [of "\<bar>x\<bar>" 2 "\<lfloor>log 2 \<bar>x\<bar>\<rfloor>"] pos by simp
qed

lemma expo_le:
  assumes "\<bar>x\<bar> < 2 powr (of_int k + 1)" and "- 1022 \<le> k" and "x \<noteq> 0"
  shows "expo x \<le> k"
proof -
  have pos: "0 < \<bar>x\<bar>" using assms(3) by simp
  have "log 2 \<bar>x\<bar> < of_int k + 1"
    using assms(1) pos by (simp add: log_less_iff)
  then have "\<lfloor>log 2 \<bar>x\<bar>\<rfloor> < k + 1"
    using floor_less_iff [of "log 2 \<bar>x\<bar>" "k + 1"] by simp
  then show ?thesis using assms(2) by (simp add: expo_def)
qed

lemma expo_mono:
  assumes "0 < x" and "x \<le> y"
  shows "expo x \<le> expo y"
proof -
  have "log 2 \<bar>x\<bar> \<le> log 2 \<bar>y\<bar>" using assms by simp
  then have "\<lfloor>log 2 \<bar>x\<bar>\<rfloor> \<le> \<lfloor>log 2 \<bar>y\<bar>\<rfloor>" by (rule floor_mono)
  then show ?thesis by (simp add: expo_def)
qed

lemma fl_nonneg: "0 \<le> x \<Longrightarrow> 0 \<le> fl x"
proof (cases "x = 0")
  case True
  then show ?thesis by (simp add: fl_0)
next
  case False
  assume "0 \<le> x"
  then have "of_int 0 \<le> x / ulp x" using ulp_pos [of x] by simp
  then have "0 \<le> rne (x / ulp x)" by (rule rne_ge_int)
  then show ?thesis using False ulp_pos [of x] by (simp add: fl_eq)
qed


text \<open>Half a unit of the last place bounds the error.\<close>

lemma fl_error_ulp: "\<bar>fl x - x\<bar> \<le> ulp x / 2"
proof (cases "x = 0")
  case True
  then show ?thesis using ulp_pos [of x] by (simp add: fl_0)
next
  case False
  have "fl x - x = (of_int (rne (x / ulp x)) - x / ulp x) * ulp x"
    using False ulp_pos [of x] by (simp add: fl_eq left_diff_distrib)
  then have "\<bar>fl x - x\<bar> = \<bar>of_int (rne (x / ulp x)) - x / ulp x\<bar> * ulp x"
    using ulp_pos [of x] by (simp add: abs_mult)
  also have "\<dots> \<le> (1 / 2) * ulp x"
    using rne_error [of "x / ulp x"] ulp_pos [of x] by (intro mult_right_mono) simp_all
  finally show ?thesis by simp
qed


lemma fl_rel_error:
  assumes "2 powr (- 1022) \<le> \<bar>x\<bar>"
  shows "\<bar>fl x - x\<bar> \<le> \<bar>x\<bar> / 2 ^ 53"
proof -
  have "ulp x / 2 = 2 powr (of_int (expo x)) / 2 ^ 53"
    by (simp add: ulp_def powr_diff)
  also have "\<dots> \<le> \<bar>x\<bar> / 2 ^ 53"
    using expo_lower [OF assms] by (simp add: divide_right_mono)
  finally show ?thesis using fl_error_ulp [of x] by linarith
qed

text \<open>Every value with a significand of 53 bits is kept.\<close>

lemma fl_exact:
  assumes x: "x = of_int m * 2 powr (of_int i)" and m: "\<bar>m\<bar> < 2 ^ 53" and i: "- 1074 \<le> i"
  shows "fl x = x"
proof (cases "x = 0")
  case True
  then show ?thesis by (simp add: fl_0)
next
  case False
  have "\<bar>x\<bar> = of_int \<bar>m\<bar> * 2 powr (of_int i)" by (simp add: x abs_mult)
  also have "\<dots> < 2 ^ 53 * 2 powr (of_int i)"
  proof -
    have "real_of_int \<bar>m\<bar> < real_of_int (2 ^ 53)" using m by (simp only: of_int_less_iff)
    then show ?thesis by simp
  qed
  also have "\<dots> = 2 powr (of_int (52 + i) + 1)"
    by (simp add: powr_add)
  finally have "expo x \<le> 52 + i"
    using i False by (intro expo_le) simp_all
  then have "0 \<le> i - (expo x - 52)" by simp
  then obtain j :: nat where j: "i - (expo x - 52) = int j"
    using nonneg_int_cases by blast
  have "2 powr (of_int i) / ulp x = 2 powr (of_int (i - (expo x - 52)))"
    by (simp add: ulp_def powr_diff [symmetric])
  also have "\<dots> = 2 ^ j"
    unfolding j by (simp add: powr_realpow)
  finally have q: "2 powr (of_int i) / ulp x = 2 ^ j" .
  have "x / ulp x = of_int m * (2 powr (of_int i) / ulp x)" by (simp add: x)
  also have "\<dots> = of_int (m * 2 ^ j)" by (simp add: q)
  finally have "rne (x / ulp x) = m * 2 ^ j" by (simp only: rne_of_int)
  then have "fl x = of_int m * (2 ^ j * ulp x)"
    using False by (simp add: fl_eq)
  also have "2 ^ j * ulp x = 2 powr (of_int i)"
    using q ulp_pos [of x] by (simp add: field_simps)
  finally show ?thesis by (simp add: x)
qed

lemma fl_of_int: "\<bar>n\<bar> < 2 ^ 53 \<Longrightarrow> fl (of_int n) = of_int n"
  using fl_exact [of "of_int n" n 0] by simp

lemma fl_of_nat: "n < 2 ^ 53 \<Longrightarrow> fl (real n) = real n"
  using fl_of_int [of "int n"] by simp

text \<open>Rounding keeps the order of non-negative values.\<close>

lemma fl_le_binade:
  assumes "0 < x"
  shows "fl x \<le> 2 powr (of_int (expo x) + 1)"
proof -
  have "x / ulp x < 2 powr (of_int (expo x) + 1) / ulp x"
    using expo_upper [of x] assms ulp_pos [of x] by (simp add: divide_strict_right_mono)
  also have "\<dots> = 2 powr 53"
    by (simp add: ulp_def powr_diff [symmetric])
  also have "\<dots> = of_int (2 ^ 53)"
    by (simp add: powr_numeral)
  finally have "rne (x / ulp x) \<le> 2 ^ 53"
    by (intro rne_le_int) simp
  then have "real_of_int (rne (x / ulp x)) \<le> real_of_int (2 ^ 53)"
    by (simp only: of_int_le_iff)
  then have "fl x \<le> 2 ^ 53 * ulp x"
    using assms ulp_pos [of x] by (simp add: fl_eq)
  also have "\<dots> = 2 powr (of_int (expo x) + 1)"
    by (simp add: ulp_def powr_add powr_diff powr_numeral)
  finally show ?thesis .
qed

lemma fl_ge_binade:
  assumes "2 powr (of_int (expo x)) \<le> x"
  shows "2 powr (of_int (expo x)) \<le> fl x"
proof -
  have pos: "0 < x" using assms powr_gt_zero [of 2 "of_int (expo x)"] by linarith
  have "2 powr 52 = 2 powr (of_int (expo x)) / ulp x"
    by (simp add: ulp_def powr_diff [symmetric])
  also have "\<dots> \<le> x / ulp x"
    using assms ulp_pos [of x] by (simp add: divide_right_mono)
  finally have "of_int (2 ^ 52) \<le> x / ulp x"
    by (simp add: powr_numeral)
  then have "2 ^ 52 \<le> rne (x / ulp x)"
    by (rule rne_ge_int)
  then have "real_of_int (2 ^ 52) \<le> real_of_int (rne (x / ulp x))"
    by (simp only: of_int_le_iff)
  then have "2 ^ 52 * ulp x \<le> fl x"
    using pos ulp_pos [of x] by (simp add: fl_eq)
  moreover have "2 ^ 52 * ulp x = 2 powr (of_int (expo x))"
    by (simp add: ulp_def powr_diff powr_numeral)
  ultimately show ?thesis by simp
qed

lemma fl_mono:
  assumes "0 \<le> x" and "x \<le> y"
  shows "fl x \<le> fl y"
proof (cases "x = 0")
  case True
  then show ?thesis using fl_nonneg [of y] assms by (simp add: fl_0)
next
  case False
  then have x: "0 < x" and y: "0 < y" using assms by simp_all
  have le: "expo x \<le> expo y" using x assms(2) by (rule expo_mono)
  show ?thesis
  proof (cases "expo x = expo y")
    case True
    then have u: "ulp x = ulp y" by (simp add: ulp_def)
    have "x / ulp y \<le> y / ulp y"
      using assms(2) ulp_pos [of y] by (simp add: divide_right_mono)
    then have "rne (x / ulp y) \<le> rne (y / ulp y)" by (rule rne_mono)
    then have "real_of_int (rne (x / ulp y)) * ulp y \<le> real_of_int (rne (y / ulp y)) * ulp y"
      using ulp_pos [of y] by simp
    then show ?thesis using x y u by (simp add: fl_eq)
  next
    case False
    with le have lt: "expo x + 1 \<le> expo y" by simp
    then have "- 1022 < expo y" by (simp add: expo_def)
    then have e: "expo y = \<lfloor>log 2 \<bar>y\<bar>\<rfloor>" by (simp add: expo_def)
    have "2 powr (of_int (expo y)) \<le> y"
      unfolding e using floor_log_eq_powr_iff [of "\<bar>y\<bar>" 2 "\<lfloor>log 2 \<bar>y\<bar>\<rfloor>"] y by simp
    then have "2 powr (of_int (expo y)) \<le> fl y" by (rule fl_ge_binade)
    moreover have "fl x \<le> 2 powr (of_int (expo x) + 1)" using x by (rule fl_le_binade)
    moreover have "(2::real) powr (of_int (expo x) + 1) \<le> 2 powr (of_int (expo y))"
    proof -
      have "real_of_int (expo x + 1) \<le> real_of_int (expo y)"
        using lt by (simp only: of_int_le_iff)
      then show ?thesis by (intro powr_mono) simp_all
    qed
    ultimately show ?thesis by linarith
  qed
qed





text \<open>
  The quotient by a million of an integer below \<open>2 ^ 53\<close>: rounding does not
  move it across an integer.
\<close>

lemma floor_fl_div_million:
  assumes "a < 2 ^ 53"
  shows "\<lfloor>fl (real a / 1000000)\<rfloor> = \<lfloor>real a / 1000000\<rfloor>"
proof -
  define q where "q = real a / 1000000"
  define d where "d = a div 1000000"
  define r where "r = a mod 1000000"
  have a: "real a = real d * 1000000 + real r"
    unfolding d_def r_def by (metis of_nat_add of_nat_mult of_nat_numeral div_mult_mod_eq)
  have q: "q = real d + real r / 1000000"
    unfolding q_def a by (simp add: add_divide_distrib)
  have r: "r < 1000000" unfolding r_def by simp
  have n: "\<lfloor>q\<rfloor> = int d"
  proof -
    have "real r / 1000000 < 1" using r by simp
    then show ?thesis unfolding q by (simp add: floor_eq_iff)
  qed
  have q0: "0 \<le> q" unfolding q_def by simp
  have "d < 2 ^ 53" unfolding d_def using assms by (simp add: div_less_iff_less_mult)
  then have fd: "fl (real d) = real d" by (rule fl_of_nat)
  have "real d \<le> q" unfolding q by simp
  then have "fl (real d) \<le> fl q" by (intro fl_mono) simp_all
  then have lower: "real d \<le> fl q" unfolding fd .
  have upper: "fl q < real d + 1"
  proof (cases "r = 0")
    case True
    then have "q = real d" unfolding q by simp
    then show ?thesis using fd by simp
  next
    case False
    then have "1 \<le> real r" by simp
    then have lo: "1 / 1000000 \<le> q" unfolding q by (simp add: field_simps add_increasing)
    have hi: "q \<le> real d + 1 - 1 / 1000000"
    proof -
      have "real r \<le> 999999" using r by simp
      then show ?thesis unfolding q by (simp add: field_simps)
    qed
    have "(2::real) powr (- 1022) \<le> 2 powr (- 20)" by (intro powr_mono) simp_all
    also have "\<dots> \<le> 1 / 1000000" by (simp add: powr_minus powr_numeral field_simps)
    finally have "2 powr (- 1022) \<le> \<bar>q\<bar>" using lo by simp
    from fl_rel_error [OF this] have "\<bar>fl q - q\<bar> \<le> q / 2 ^ 53" using q0 by simp
    then have "fl q \<le> q + q / 2 ^ 53" by linarith
    moreover have "q / 2 ^ 53 < 1 / 1000000"
    proof -
      have "real a < 2 ^ 53" using assms by (metis of_nat_less_iff of_nat_numeral of_nat_power)
      then show ?thesis unfolding q_def by (simp add: field_simps)
    qed
    ultimately show ?thesis using hi by linarith
  qed
  have "\<lfloor>fl q\<rfloor> = int d" using lower upper by (simp add: floor_eq_iff)
  then show ?thesis using n unfolding q_def by simp
qed

subsection \<open>Conversions and the number of samples\<close>

lemma trunc_nonneg: "0 \<le> x \<Longrightarrow> trunc x = \<lfloor>x\<rfloor>"
  by (simp add: trunc_def)


lemma size_t_of_double_floor:
  assumes "0 \<le> x" and "\<lfloor>x\<rfloor> < 2 ^ 64"
  shows "size_t_of_double x = nat \<lfloor>x\<rfloor>"
proof -
  have "0 \<le> \<lfloor>x\<rfloor>" using assms(1) by simp
  then show ?thesis using assms by (simp add: size_t_of_double_def trunc_nonneg)
qed

text \<open>
  When the duration and its product with the sample rate are integers below
  \<open>2 ^ 53\<close> the doubles are exact up to the quotient, and the count is the
  floor of the exact quotient.
\<close>

lemma sample_end_exact:
  assumes us: "time_us < 2 ^ 53" and a: "real time_us * sample_rate C = real a" and "a < 2 ^ 53"
  shows "sample_end C time_us = nat \<lfloor>real time_us * sample_rate C / 1000000\<rfloor>"
proof -
  let ?y = "fl (real a / 1000000)"
  have f: "\<lfloor>?y\<rfloor> = \<lfloor>real a / 1000000\<rfloor>"
    using assms(3) by (rule floor_fl_div_million)
  have "\<lfloor>real a / 1000000\<rfloor> \<le> \<lfloor>real a\<rfloor>"
    by (intro floor_mono) (simp add: field_simps)
  also have "\<dots> < 2 ^ 64" using assms(3) by simp
  finally have small: "\<lfloor>?y\<rfloor> < 2 ^ 64" unfolding f .
  have "0 \<le> ?y" by (intro fl_nonneg) simp
  then have "size_t_of_double ?y = nat \<lfloor>?y\<rfloor>" using small by (rule size_t_of_double_floor)
  moreover have "fl (fl (real time_us) * sample_rate C) = real a"
    unfolding fl_of_nat [OF us] a using assms(3) by (rule fl_of_nat)
  ultimately show ?thesis
    unfolding sample_end_def using f a by simp
qed

lemma sample_end_demo_257:
  "sample_end (demo_config\<lparr>out_block_size := n\<rparr>) 257 = 257"
proof -
  have "sample_end (demo_config\<lparr>out_block_size := n\<rparr>) 257 =
      nat \<lfloor>real 257 * sample_rate (demo_config\<lparr>out_block_size := n\<rparr>) / 1000000\<rfloor>"
    by (rule sample_end_exact [where a = 257000000]) (simp_all add: demo_config_def)
  then show ?thesis by (simp add: demo_config_def)
qed



subsection \<open>The encoder\<close>

lemma bound_range: "0 \<le> bound x \<and> bound x \<le> 255"
  by (simp add: bound_def)


lemma uint_bound: "uint (word_of_int (bound x) :: u8) = bound x"
proof -
  have "bound x mod 256 = bound x"
    using bound_range [of x] by (intro mod_pos_pos_trivial) auto
  then show ?thesis by (simp add: uint_word_of_int)
qed

lemma to_u8_uint: "uint (to_u8 v) = bound (int_of_double (fl (fl (v + 1) * 127.5)))"
  unfolding to_u8_def Let_def using uint_bound by simp










text \<open>The byte of a sample whose sum and product are doubles as they stand.\<close>

lemma to_u8_exact:
  assumes "v + 1 = of_int m * 2 powr (of_int i)" and "\<bar>m\<bar> < 2 ^ 53" and "- 1074 \<le> i"
    and "(v + 1) * 127.5 = of_int n * 2 powr (of_int j)" and "\<bar>n\<bar> < 2 ^ 53" and "- 1074 \<le> j"
  shows "uint (to_u8 v) = bound (int_of_double ((v + 1) * 127.5))"
proof -
  have f1: "fl (v + 1) = v + 1" using assms(1-3) by (rule fl_exact)
  have f2: "fl ((v + 1) * 127.5) = (v + 1) * 127.5" using assms(4-6) by (rule fl_exact)
  show ?thesis unfolding to_u8_uint f1 f2 ..
qed

lemma to_u8_values:
  "to_u8 0 = 127" "to_u8 1 = 255" "to_u8 (- 1) = 0"
proof -
  have "uint (to_u8 0) = bound (int_of_double ((0 + 1) * 127.5))"
    by (rule to_u8_exact [where m = 1 and i = 0 and n = 255 and j = "- 1"])
       (simp_all add: powr_minus)
  then have "uint (to_u8 0) = 127"
    by (simp add: bound_def int_of_double_def trunc_def)
  then show "to_u8 0 = 127" by (metis word_of_int_uint word_of_int_numeral)
  have "uint (to_u8 1) = bound (int_of_double ((1 + 1) * 127.5))"
    by (rule to_u8_exact [where m = 2 and i = 0 and n = 255 and j = 0]) simp_all
  then have "uint (to_u8 1) = 255"
    by (simp add: bound_def int_of_double_def trunc_def)
  then show "to_u8 1 = 255" by (metis word_of_int_uint word_of_int_numeral)
  show "to_u8 (- 1) = 0" by (simp add: to_u8_def fl_0 int_of_double_def trunc_def bound_def)
qed




subsection \<open>The level converter\<close>

text \<open>
  C9. \<^verbatim>\<open>sine_pk_level\<close> reads a non-positive argument as decibels and returns
  \<open>10 powr (arg / 20)\<close>, and returns a positive argument unchanged; the
  argument 0 is on the decibel branch and gives the gain 1, not 0.
\<close>

theorem sine_pk_level_branches:
  "(atofs X arg \<le> 0 \<longrightarrow> sine_pk_level X arg = 10 powr (atofs X arg / 20))
   \<and> (0 < atofs X arg \<longrightarrow> sine_pk_level X arg = atofs X arg)
   \<and> (atofs X arg = 0 \<longrightarrow> sine_pk_level X arg = 1)"
  by (simp add: sine_pk_level_def)

theorem sine_pk_level_branches_witness:
  "atofs demo_extern ''0'' = 0 \<and> sine_pk_level demo_extern ''0'' = 1
   \<and> atofs (demo_extern\<lparr>atofs := \<lambda>a. -20\<rparr>) ''-20'' \<le> 0
   \<and> sine_pk_level (demo_extern\<lparr>atofs := \<lambda>a. -20\<rparr>) ''-20'' = 10 powr (-1)
   \<and> 0 < atofs (demo_extern\<lparr>atofs := \<lambda>a. 2\<rparr>) ''2''
   \<and> sine_pk_level (demo_extern\<lparr>atofs := \<lambda>a. 2\<rparr>) ''2'' = 2"
  using sine_pk_level_branches [of demo_extern "''0''"]
    sine_pk_level_branches [of "demo_extern\<lparr>atofs := \<lambda>a. -20\<rparr>" "''-20''"]
    sine_pk_level_branches [of "demo_extern\<lparr>atofs := \<lambda>a. 2\<rparr>" "''2''"]
  by (simp add: demo_extern_def)

subsection \<open>The envelope\<close>

text \<open>
  C6. For a tone of at least \<open>2 * 100\<close> samples the factor
  \<open>att_in * att_out\<close> that \<^verbatim>\<open>add_sine\<close> multiplies into the sample number \<open>t\<close>
  is \<open>t / 100\<close> over the first 100 samples (from 0, reaching 1 at \<open>t = 100\<close>),
  exactly 1 in the middle, and \<open>(endt - t) / 100\<close> over the last 100 samples
  (from 1 at \<open>t = endt - 100\<close>, down to \<open>1 / 100\<close> at the last sample and
  reaching 0 at \<open>t = endt\<close>); it does not decrease over the first 100 samples and
  does not increase over the last 100.
\<close>

theorem ramp_shape:
  assumes "2 * 100 \<le> endt"
  shows "(t < 100 \<longrightarrow> att_in 100 t * att_out 100 endt t = real t / 100)
       \<and> (100 \<le> t \<and> t + 100 \<le> endt \<longrightarrow> att_in 100 t * att_out 100 endt t = 1)
       \<and> (endt \<le> t + 100 \<and> t < endt \<longrightarrow>
            att_in 100 t * att_out 100 endt t = real (endt - t) / 100)
       \<and> (t \<le> t' \<and> t' < 100 \<longrightarrow>
            att_in 100 t * att_out 100 endt t \<le> att_in 100 t' * att_out 100 endt t')
       \<and> (endt \<le> t + 100 \<and> t \<le> t' \<and> t' < endt \<longrightarrow>
            att_in 100 t' * att_out 100 endt t' \<le> att_in 100 t * att_out 100 endt t)"
  using assms by (auto simp add: att_in_def att_out_def)

theorem ramp_shape_witness:
  "2 * 100 \<le> (1000 :: nat)
   \<and> att_in 100 25 * att_out 100 1000 25 = 1 / 4
   \<and> att_in 100 25 * att_out 100 1000 25 \<le> att_in 100 50 * att_out 100 1000 50
   \<and> att_in 100 500 * att_out 100 1000 500 = 1
   \<and> att_in 100 950 * att_out 100 1000 950 = 1 / 2
   \<and> att_in 100 975 * att_out 100 1000 975 \<le> att_in 100 950 * att_out 100 1000 950"
  using ramp_shape [of 1000 25 50] ramp_shape [of 1000 500 500] ramp_shape [of 1000 950 975]
  by simp

subsection \<open>The output sink\<close>

lemma signal_out_rand_state: "rand_state (signal_out C i q s) = rand_state s"
  by (simp add: signal_out_def Let_def)

lemma signal_out_do_exit: "do_exit (signal_out C i q s) = do_exit s"
  by (simp add: signal_out_def Let_def)

lemma signal_out_pos:
  "out_block_pos (signal_out C i q s) =
     (if out_block_pos s + 2 = out_block_size C then 0 else out_block_pos s + 2)"
  by (simp add: signal_out_def Let_def)

lemma signal_out_block:
  "out_block (signal_out C i q s) =
     (out_block s)(out_block_pos s := to_u8 i, out_block_pos s + 1 := to_u8 q)"
  by (simp add: signal_out_def Let_def)

lemma signal_out_writes:
  "writes (signal_out C i q s) =
     (if out_block_pos s + 2 = out_block_size C
      then writes s @ [map (out_block (signal_out C i q s)) [0..<out_block_size C]]
      else writes s)"
  by (simp add: signal_out_def Let_def)


lemma signal_out_rand_update:
  "signal_out C i q (s\<lparr>rand_state := g\<rparr>) = (signal_out C i q s)\<lparr>rand_state := g\<rparr>"
  by (simp add: signal_out_def Let_def)

lemma signal_out_all_Nil: "signal_out_all C [] s = s"
  by (simp add: signal_out_all_def)

lemma signal_out_all_Cons:
  "signal_out_all C ((i, q) # ps) s = signal_out_all C ps (signal_out C i q s)"
  by (simp add: signal_out_all_def)

lemma signal_out_all_snoc:
  "signal_out_all C (ps @ [(i, q)]) s = signal_out C i q (signal_out_all C ps s)"
  by (simp add: signal_out_all_def)

lemma signal_out_all_append:
  "signal_out_all C (ps @ qs) s = signal_out_all C qs (signal_out_all C ps s)"
  by (simp add: signal_out_all_def)

lemma signal_out_all_rand_update:
  "signal_out_all C ps (s\<lparr>rand_state := g\<rparr>) = (signal_out_all C ps s)\<lparr>rand_state := g\<rparr>"
proof (induction ps arbitrary: s)
  case Nil
  show ?case by (simp add: signal_out_all_Nil)
next
  case (Cons p ps)
  obtain i q where p: "p = (i, q)" by (cases p)
  show ?case unfolding p signal_out_all_Cons signal_out_rand_update Cons.IH ..
qed

lemma signal_out_all_do_exit: "do_exit (signal_out_all C ps s) = do_exit s"
proof (induction ps arbitrary: s)
  case Nil
  show ?case by (simp add: signal_out_all_Nil)
next
  case (Cons p ps)
  obtain i q where p: "p = (i, q)" by (cases p)
  show ?case unfolding p signal_out_all_Cons Cons.IH signal_out_do_exit ..
qed


text \<open>While the block is not full the pairs pile up below the cursor.\<close>

lemma filling:
  "out_block_pos s + 2 * length ps < out_block_size C \<Longrightarrow>
     writes (signal_out_all C ps s) = writes s \<and>
     out_block_pos (signal_out_all C ps s) = out_block_pos s + 2 * length ps \<and>
     map (out_block (signal_out_all C ps s)) [0..<out_block_pos s + 2 * length ps] =
       map (out_block s) [0..<out_block_pos s] @ encode_pairs ps"
proof (induction ps arbitrary: s)
  case Nil
  then show ?case by (simp add: signal_out_all_Nil encode_pairs_def)
next
  case (Cons p ps)
  obtain i q where p: "p = (i, q)" by (cases p)
  let ?s = "signal_out C i q s"
  have pos: "out_block_pos ?s = out_block_pos s + 2"
    using Cons.prems by (simp add: signal_out_pos)
  have wr: "writes ?s = writes s"
    using Cons.prems by (simp add: signal_out_writes)
  have pre: "out_block_pos ?s + 2 * length ps < out_block_size C"
    using Cons.prems pos by simp
  have mem: "map (out_block ?s) [0..<out_block_pos ?s] =
      map (out_block s) [0..<out_block_pos s] @ [to_u8 i, to_u8 q]"
    unfolding pos signal_out_block by (simp add: upt_rec [of "out_block_pos s"])
  have eq: "out_block_pos s + 2 * length (p # ps) = out_block_pos ?s + 2 * length ps"
    using pos by simp
  show ?case
    unfolding p signal_out_all_Cons eq [unfolded p]
    using Cons.IH [OF pre] wr mem by (simp add: encode_pairs_def)
qed

lemma full_block:
  assumes "out_block_pos s = 0" and "2 * length ps = out_block_size C" and "ps \<noteq> []"
  shows "writes (signal_out_all C ps s) = writes s @ [encode_pairs ps] \<and>
         out_block_pos (signal_out_all C ps s) = 0"
proof -
  obtain qs i q where ps: "ps = qs @ [(i, q)]"
    using assms(3) by (metis rev_exhaust surj_pair)
  let ?t = "signal_out_all C qs s"
  have pre: "out_block_pos s + 2 * length qs < out_block_size C"
    using assms ps by simp
  note f = filling [OF pre]
  have pos: "out_block_pos ?t + 2 = out_block_size C"
    using f assms ps by simp
  have "map (out_block (signal_out C i q ?t)) [0..<out_block_size C] =
        map (out_block ?t) [0..<out_block_pos ?t] @ [to_u8 i, to_u8 q]"
    unfolding pos [symmetric] signal_out_block by (simp add: upt_rec [of "out_block_pos ?t"])
  also have "\<dots> = encode_pairs ps"
    using f assms(1) by (simp add: ps encode_pairs_def)
  finally show ?thesis
    unfolding ps signal_out_all_snoc using pos f by (simp add: signal_out_writes signal_out_pos)
qed


text \<open>With an odd block size an even cursor steps over the size: no block is written.\<close>

lemma never_flushes:
  "odd (out_block_size C) \<Longrightarrow> even (out_block_pos s) \<Longrightarrow>
   writes (signal_out_all C ps s) = writes s \<and>
   out_block_pos (signal_out_all C ps s) = out_block_pos s + 2 * length ps"
proof (induction ps arbitrary: s)
  case Nil
  show ?case by (simp add: signal_out_all_Nil)
next
  case (Cons p ps)
  obtain i q where p: "p = (i, q)" by (cases p)
  have ne: "out_block_pos s + 2 \<noteq> out_block_size C"
    using Cons.prems by (metis even_add even_numeral)
  have pos: "out_block_pos (signal_out C i q s) = out_block_pos s + 2"
    using ne by (simp add: signal_out_pos)
  have wr: "writes (signal_out C i q s) = writes s"
    using ne by (simp add: signal_out_writes)
  have ev: "even (out_block_pos (signal_out C i q s))"
    using Cons.prems(2) pos by simp
  show ?case
    unfolding p signal_out_all_Cons using Cons.IH [OF Cons.prems(1) ev] pos wr by simp
qed

text \<open>
  C4, as amended. The block size counts bytes and a sample pair is two bytes.
  Starting from an empty buffer, writing exactly \<open>block_size / 2\<close> sample pairs
  (\<open>block_size\<close> bytes) produces exactly one write call, of the whole block
  with the encoded pairs in order, and leaves the cursor at zero; writing
  fewer pairs, \<open>block_size / 2 - 1\<close> for one, produces no write call and leaves
  the cursor at twice the number of pairs.
\<close>

theorem block_of_pairs:
  assumes "out_block_pos s = 0" and "0 < out_block_size C"
  shows "(2 * length ps = out_block_size C \<longrightarrow>
            writes (signal_out_all C ps s) = writes s @ [encode_pairs ps] \<and>
            out_block_pos (signal_out_all C ps s) = 0)
       \<and> (2 * length ps < out_block_size C \<longrightarrow>
            writes (signal_out_all C ps s) = writes s \<and>
            out_block_pos (signal_out_all C ps s) = 2 * length ps)"
proof (intro conjI impI)
  assume full: "2 * length ps = out_block_size C"
  then have "ps \<noteq> []" using assms(2) by auto
  from full_block [OF assms(1) full this]
  show "writes (signal_out_all C ps s) = writes s @ [encode_pairs ps]"
    and "out_block_pos (signal_out_all C ps s) = 0" by simp_all
next
  assume "2 * length ps < out_block_size C"
  then have "out_block_pos s + 2 * length ps < out_block_size C" using assms(1) by simp
  from filling [OF this]
  show "writes (signal_out_all C ps s) = writes s"
    and "out_block_pos (signal_out_all C ps s) = 2 * length ps" using assms(1) by simp_all
qed

theorem block_of_pairs_witness:
  "out_block_pos demo_state = 0 \<and> 0 < out_block_size (demo_config\<lparr>out_block_size := 4\<rparr>)
   \<and> 2 * length [(0, 0), (1, - 1 :: real)] = out_block_size (demo_config\<lparr>out_block_size := 4\<rparr>)
   \<and> writes (signal_out_all (demo_config\<lparr>out_block_size := 4\<rparr>) [(0, 0), (1, - 1)] demo_state)
       = [[127, 127, 255, 0]]
   \<and> out_block_pos
       (signal_out_all (demo_config\<lparr>out_block_size := 4\<rparr>) [(0, 0), (1, - 1)] demo_state) = 0
   \<and> 2 * length [(0, 0 :: real)] < out_block_size (demo_config\<lparr>out_block_size := 4\<rparr>)
   \<and> writes (signal_out_all (demo_config\<lparr>out_block_size := 4\<rparr>) [(0, 0)] demo_state) = []
   \<and> out_block_pos (signal_out_all (demo_config\<lparr>out_block_size := 4\<rparr>) [(0, 0)] demo_state) = 2"
proof -
  have a: "out_block_pos demo_state = 0" by (simp add: demo_state_def)
  have b: "0 < out_block_size (demo_config\<lparr>out_block_size := 4\<rparr>)" by simp
  have e: "encode_pairs [(0, 0), (1, - 1)] = [127, 127, 255, 0]"
    by (simp add: encode_pairs_def to_u8_values)
  show ?thesis
    using block_of_pairs [OF a b, of "[(0, 0), (1, - 1)]"] block_of_pairs [OF a b, of "[(0, 0)]"]
    by (simp add: e) (simp add: demo_state_def)
qed

text \<open>
  C4 as stated fails. With the smallest accepted block size, 512 bytes, and an
  empty buffer, writing 512 sample pairs makes two write calls, not one, and
  writing 511 sample pairs makes one write call, not none.
\<close>

theorem block_size_pairs_counterexample:
  "length (writes (signal_out_all (demo_config\<lparr>out_block_size := 512\<rparr>)
             (replicate 512 (0, 0)) demo_state)) = 2
   \<and> length (writes (signal_out_all (demo_config\<lparr>out_block_size := 512\<rparr>)
             (replicate 511 (0, 0)) demo_state)) = 1"
proof -
  let ?C = "demo_config\<lparr>out_block_size := 512\<rparr>"
  let ?blk = "replicate 256 (0 :: real, 0 :: real)"
  let ?s1 = "signal_out_all ?C ?blk demo_state"
  have one: "writes ?s1 = writes demo_state @ [encode_pairs ?blk] \<and> out_block_pos ?s1 = 0"
    by (rule full_block) (simp_all add: demo_state_def)
  have two: "writes (signal_out_all ?C ?blk ?s1) = writes ?s1 @ [encode_pairs ?blk]"
    using full_block [of ?s1 ?blk ?C] one by simp
  have rest: "writes (signal_out_all ?C (replicate 255 (0, 0)) ?s1) = writes ?s1"
    using filling [of ?s1 "replicate 255 (0, 0)" ?C] one by simp
  have "replicate 512 (0 :: real, 0 :: real) = ?blk @ ?blk"
    by (simp add: replicate_add [symmetric])
  moreover have "replicate 511 (0 :: real, 0 :: real) = ?blk @ replicate 255 (0, 0)"
    by (simp add: replicate_add [symmetric])
  ultimately show ?thesis
    using one two rest by (simp add: signal_out_all_append demo_state_def)
qed

subsection \<open>The two synthesis loops\<close>

lemma randf_eq:
  "randf X s = (real_of_int (fst (rand X (rand_state s))) / real_of_int (RAND_MAX X),
                s\<lparr>rand_state := snd (rand X (rand_state s))\<rparr>)"
  by (simp add: randf_def split: prod.split)

lemma deliver_eq: "deliver b s = s\<lparr>do_exit := do_exit s \<or> b\<rparr>"
  by (cases b) (simp_all add: deliver_def sighandler_def)

lemma signal_out_do_exit_update:
  "signal_out C i q (s\<lparr>do_exit := b\<rparr>) = (signal_out C i q s)\<lparr>do_exit := b\<rparr>"
  by (simp add: signal_out_def Let_def)

lemma signal_out_all_do_exit_update:
  "signal_out_all C ps (s\<lparr>do_exit := b\<rparr>) = (signal_out_all C ps s)\<lparr>do_exit := b\<rparr>"
proof (induction ps arbitrary: s)
  case Nil
  show ?case by (simp add: signal_out_all_Nil)
next
  case (Cons p ps)
  obtain i q where p: "p = (i, q)" by (cases p)
  show ?case unfolding p signal_out_all_Cons signal_out_do_exit_update Cons.IH ..
qed

lemma signal_out_all_rand_state: "rand_state (signal_out_all C ps s) = rand_state s"
proof (induction ps arbitrary: s)
  case Nil
  show ?case by (simp add: signal_out_all_Nil)
next
  case (Cons p ps)
  obtain i q where p: "p = (i, q)" by (cases p)
  show ?case unfolding p signal_out_all_Cons Cons.IH signal_out_rand_state ..
qed

lemma signal_out_stdout: "fd (signal_out C i q s) = fd s" "printed (signal_out C i q s) = printed s"
  by (simp_all add: signal_out_def Let_def)

lemma signal_out_all_stdout:
  "fd (signal_out_all C ps s) = fd s \<and> printed (signal_out_all C ps s) = printed s"
proof (induction ps arbitrary: s)
  case Nil
  show ?case by (simp add: signal_out_all_Nil)
next
  case (Cons p ps)
  obtain i q where p: "p = (i, q)" by (cases p)
  show ?case unfolding p signal_out_all_Cons using Cons.IH by (simp add: signal_out_stdout)
qed



lemma signalled_last: "signalled sg endt endt \<longleftrightarrow> sg endt"
  by (simp add: signalled_def)

lemma signalled_step: "t < endt \<Longrightarrow> signalled sg t endt \<longleftrightarrow> sg t \<or> signalled sg (t + 1) endt"
proof -
  assume "t < endt"
  then have "{t..endt} = insert t {t + 1..endt}" by auto
  then show ?thesis by (simp add: signalled_def)
qed

lemma signalled_no_signal: "\<not> signalled no_signal t endt"
  by (simp add: signalled_def no_signal_def)

lemma length_noise_draws: "length (noise_draws X a n g) = n"
  by (induction n arbitrary: g) (auto split: prod.split)

lemma length_sine_draws: "length (sine_draws X C lut att k endt t n g) = n"
  by (induction n arbitrary: t g) (auto split: prod.split)

text \<open>
  The noise loop hands exactly the draws of the generator to the sink, and
  advances the generator by two draws a sample. A signal that arrives during
  the loop, at whatever test, sets the flag and changes nothing else.
\<close>

lemma add_noise_loop_draws:
  "t \<le> endt \<Longrightarrow>
   add_noise_loop X C sg endt t s =
     (signal_out_all C (noise_draws X (noise_floor C) (endt - t) (rand_state s)) s)
       \<lparr>rand_state := rand_skip X (2 * (endt - t)) (rand_state s),
        do_exit := do_exit s \<or> signalled sg t endt\<rparr>"
proof (induction "endt - t" arbitrary: t s)
  case 0
  then have t: "t = endt" by simp
  show ?case
    unfolding t by (subst add_noise_loop.simps)
      (simp add: signal_out_all_Nil deliver_eq signalled_last)
next
  case (Suc n)
  then have lt: "t < endt" and n: "n = endt - (t + 1)" and d: "endt - t = Suc n"
    and le: "t + 1 \<le> endt" by simp_all
  obtain r1 g1 where r1: "rand X (rand_state s) = (r1, g1)" by (cases "rand X (rand_state s)")
  obtain r2 g2 where r2: "rand X g1 = (r2, g2)" by (cases "rand X g1")
  let ?x = "(real_of_int r1 / real_of_int (RAND_MAX X) - 0.5) * noise_floor C"
  let ?y = "(real_of_int r2 / real_of_int (RAND_MAX X) - 0.5) * noise_floor C"
  let ?s = "s\<lparr>rand_state := g2, do_exit := do_exit s \<or> sg t\<rparr>"
  have ns: "noise_sample X C (deliver (sg t) s) = ((?x, ?y), ?s)"
    by (simp add: noise_sample_def randf_def r1 r2 deliver_eq)
  have step: "add_noise_loop X C sg endt t s =
      add_noise_loop X C sg endt (t + 1) (signal_out C ?x ?y ?s)"
    by (subst add_noise_loop.simps) (simp add: lt ns)
  have draws: "noise_draws X (noise_floor C) (Suc n) (rand_state s) =
      (?x, ?y) # noise_draws X (noise_floor C) n g2"
    by (simp add: r1 r2)
  have skip: "rand_skip X (2 * Suc n) (rand_state s) = rand_skip X (2 * n) g2"
    by (simp add: r1 r2)
  show ?case
    unfolding step Suc.hyps(1) [OF n le] d draws skip n [symmetric] signalled_step [OF lt]
    by (simp add: signal_out_rand_update signal_out_all_rand_update signal_out_all_Cons
        signal_out_do_exit_update signal_out_all_do_exit_update signal_out_rand_state
        signal_out_do_exit disj_assoc)
qed

text \<open>The oscillator loop does the same with the pairs of the tone.\<close>

lemma add_sine_loop_draws:
  "t \<le> endt \<Longrightarrow>
   add_sine_loop X C sg lut att k endt t s =
     (signal_out_all C (sine_draws X C lut att k endt t (endt - t) (rand_state s)) s)
       \<lparr>rand_state := rand_skip X (2 * (endt - t)) (rand_state s),
        do_exit := do_exit s \<or> signalled sg t endt\<rparr>"
proof (induction "endt - t" arbitrary: t s)
  case 0
  then have t: "t = endt" by simp
  show ?case
    unfolding t by (subst add_sine_loop.simps)
      (simp add: signal_out_all_Nil deliver_eq signalled_last)
next
  case (Suc n)
  then have lt: "t < endt" and n: "n = endt - (t + 1)" and d: "endt - t = Suc n"
    and le: "t + 1 \<le> endt" by simp_all
  obtain r1 g1 where r1: "rand X (rand_state s) = (r1, g1)" by (cases "rand X (rand_state s)")
  obtain r2 g2 where r2: "rand X g1 = (r2, g2)" by (cases "rand X g1")
  let ?x = "lut_oscc X lut t * gain C * att * att_in k t * att_out k endt t
      + (real_of_int r1 / real_of_int (RAND_MAX X) - 0.5) * noise_signal C"
  let ?y = "lut_oscs X lut t * gain C * att * att_in k t * att_out k endt t
      + (real_of_int r2 / real_of_int (RAND_MAX X) - 0.5) * noise_signal C"
  let ?s = "s\<lparr>rand_state := g2, do_exit := do_exit s \<or> sg t\<rparr>"
  have ss: "sine_sample X C lut att k endt t (deliver (sg t) s) = ((?x, ?y), ?s)"
    by (simp add: sine_sample_def randf_def r1 r2 Let_def deliver_eq)
  have step: "add_sine_loop X C sg lut att k endt t s =
      add_sine_loop X C sg lut att k endt (t + 1) (signal_out C ?x ?y ?s)"
    by (subst add_sine_loop.simps) (simp add: lt ss)
  have draws: "sine_draws X C lut att k endt t (Suc n) (rand_state s) =
      (?x, ?y) # sine_draws X C lut att k endt (t + 1) n g2"
    by (simp add: r1 r2)
  have skip: "rand_skip X (2 * Suc n) (rand_state s) = rand_skip X (2 * n) g2"
    by (simp add: r1 r2)
  show ?case
    unfolding step Suc.hyps(1) [OF n le] d draws skip n [symmetric] signalled_step [OF lt]
    by (simp add: signal_out_rand_update signal_out_all_rand_update signal_out_all_Cons
        signal_out_do_exit_update signal_out_all_do_exit_update signal_out_rand_state
        signal_out_do_exit disj_assoc)
qed

lemma length_tone_pairs: "length (tone_pairs X C tn g) = sample_end C (us tn)"
  by (simp add: tone_pairs_def Let_def length_noise_draws length_sine_draws)

lemma gen_tone_pairs:
  "gen_tone X C sg tn s =
     (signal_out_all C (tone_pairs X C tn (rand_state s)) s)
       \<lparr>rand_state := rand_skip X (2 * length (tone_pairs X C tn (rand_state s))) (rand_state s),
        do_exit := do_exit s \<or> signalled sg 0 (sample_end C (us tn))\<rparr>"
  by (simp add: gen_tone_def add_noise_def add_sine_def tone_pairs_def Let_def
      add_noise_loop_draws add_sine_loop_draws length_noise_draws length_sine_draws)

lemma gen_tone_do_exit:
  "do_exit (gen_tone X C sg tn s) \<longleftrightarrow> do_exit s \<or> signalled sg 0 (sample_end C (us tn))"
  by (simp add: gen_tone_pairs)






text \<open>
  C3. A tone with a level below -24 sends to the sink exactly the pairs drawn
  from the noise source and scaled by \<open>noise_floor\<close>, one pair for each sample,
  with no oscillator term; the state it leaves does not depend on the
  frequency of the tone. (A signal that arrives meanwhile sets the flag.)
\<close>

theorem noise_only:
  assumes "db tn < -24"
  shows "gen_tone X C sg tn s =
           (signal_out_all C
              (noise_draws X (noise_floor C) (sample_end C (us tn)) (rand_state s)) s)
             \<lparr>rand_state := rand_skip X (2 * sample_end C (us tn)) (rand_state s),
              do_exit := do_exit s \<or> signalled sg 0 (sample_end C (us tn))\<rparr>
         \<and> gen_tone X C sg (tn\<lparr>hz := f\<rparr>) s = gen_tone X C sg tn s"
  using assms
  by (simp add: gen_tone_def add_noise_def Let_def add_noise_loop_draws)

theorem noise_only_witness:
  "db \<lparr>hz = 1000, db = -30, us = 2\<rparr> < -24
   \<and> gen_tone demo_extern demo_config no_signal \<lparr>hz = 440, db = -30, us = 2\<rparr> demo_state =
       gen_tone demo_extern demo_config no_signal \<lparr>hz = 1000, db = -30, us = 2\<rparr> demo_state"
proof -
  have "db \<lparr>hz = 1000, db = -30, us = 2\<rparr> < -24" by simp
  from noise_only [OF this, of demo_extern demo_config no_signal demo_state 440]
  show ?thesis by simp
qed

text \<open>
  C10. The disturbance of a tone sample is the centred draw times
  \<open>noise_signal\<close> and nothing else: it is the same for every gain, tone
  amplitude, oscillator and position in the tone, the ramps included, which
  scale the oscillator term only. On the noise branch the sample is the centred
  draw times \<open>noise_floor\<close>.
\<close>

theorem noise_unscaled:
  "noise_part X C lut att k endt t s =
     ((fst (randf X s) - 0.5) * noise_signal C,
      (fst (randf X (snd (randf X s))) - 0.5) * noise_signal C)
   \<and> noise_part X (C\<lparr>gain := g'\<rparr>) lut' att' k' endt' t' s = noise_part X C lut att k endt t s
   \<and> fst (sine_sample X (C\<lparr>noise_signal := 0\<rparr>) lut att k endt t s) =
       (lut_oscc X lut t * gain C * att * att_in k t * att_out k endt t,
        lut_oscs X lut t * gain C * att * att_in k t * att_out k endt t)
   \<and> fst (noise_sample X C s) =
       ((fst (randf X s) - 0.5) * noise_floor C,
        (fst (randf X (snd (randf X s))) - 0.5) * noise_floor C)"
proof -
  have part: "\<And>C lut att k endt t. noise_part X C lut att k endt t s =
     ((fst (randf X s) - 0.5) * noise_signal C,
      (fst (randf X (snd (randf X s))) - 0.5) * noise_signal C)"
    by (simp add: noise_part_def sine_sample_def randf_eq Let_def split: prod.split)
  have "fst (sine_sample X (C\<lparr>noise_signal := 0\<rparr>) lut att k endt t s) =
       (lut_oscc X lut t * gain C * att * att_in k t * att_out k endt t,
        lut_oscs X lut t * gain C * att * att_in k t * att_out k endt t)"
    by (simp add: sine_sample_def Let_def split: prod.split)
  moreover have "fst (noise_sample X C s) =
       ((fst (randf X s) - 0.5) * noise_floor C,
        (fst (randf X (snd (randf X s))) - 0.5) * noise_floor C)"
    by (simp add: noise_sample_def split: prod.split)
  ultimately show ?thesis
    by (simp add: part)
qed

text \<open>
  C5 fails on the code. \<^verbatim>\<open>main\<close> keeps the block size 513, and \<^verbatim>\<open>signal_out\<close>
  tests the cursor for equality with the size after it has advanced by two: the
  cursor goes from 512 to 514, past the 513 bytes of the buffer, and is never
  reset. After a noise tone of 257 samples the cursor is 514 and no block has
  been written.
\<close>

theorem odd_block_size_overruns:
  "check_block_size 513 = 513
   \<and> map_sum id (\<lambda>s. (out_block_pos s, writes s))
       (main_run demo_extern (demo_config\<lparr>out_block_size := 513\<rparr>) demo_world 1
          [\<lparr>hz = 0, db = -30, us = 257\<rparr>, \<lparr>hz = 0, db = 0, us = 0\<rparr>] (Some ''out.cu8''))
     = Inr (514, [])"
proof -
  let ?C = "demo_config\<lparr>out_block_size := 513\<rparr>"
  let ?s = "\<lparr>out_block = (\<lambda>a. 0), out_block_pos = 0, writes = [], printed = [],
            fd = File_fd ''out.cu8'', rand_state = srand demo_extern 1, do_exit = False\<rparr>"
  let ?ps = "tone_pairs demo_extern ?C \<lparr>hz = 0, db = -30, us = 257\<rparr> (rand_state ?s)"
  let ?t = "gen_tone demo_extern ?C no_signal \<lparr>hz = 0, db = -30, us = 257\<rparr> ?s"
  have size: "check_block_size 513 = 513"
    by (simp add: check_block_size_def MINIMAL_BUF_LENGTH_def MAXIMAL_BUF_LENGTH_def)
  have n: "length ?ps = 257"
    unfolding length_tone_pairs by (simp add: sample_end_demo_257)
  have sink: "writes (signal_out_all ?C ?ps ?s) = writes ?s \<and>
      out_block_pos (signal_out_all ?C ?ps ?s) = out_block_pos ?s + 2 * length ?ps"
    by (rule never_flushes) simp_all
  have pos: "out_block_pos ?t = 514" and wr: "writes ?t = []"
    unfolding gen_tone_pairs using sink n by simp_all
  have de: "\<not> do_exit ?t"
    by (simp add: gen_tone_do_exit signalled_no_signal)
  show ?thesis
    unfolding main_run_def gen_def
    using size pos wr de
    by (simp add: demo_world_def Let_def)
qed

subsection \<open>Cancellation\<close>










subsection \<open>Reproducibility\<close>

lemma same_output_signal_out:
  assumes "same_output s1 s2"
  shows "same_output (signal_out C i q s1) (signal_out C i q s2)"
proof -
  have mem: "\<And>j. j < out_block_pos s2 + 2 \<Longrightarrow>
      out_block (signal_out C i q s1) j = out_block (signal_out C i q s2) j"
    using assms by (simp add: same_output_def signal_out_block)
  have blk: "out_block_pos s2 + 2 = out_block_size C \<Longrightarrow>
      map (out_block (signal_out C i q s1)) [0..<out_block_size C] =
      map (out_block (signal_out C i q s2)) [0..<out_block_size C]"
    using mem by simp
  show ?thesis
  proof (cases "out_block_pos s2 + 2 = out_block_size C")
    case True
    with assms blk show ?thesis
      by (simp add: same_output_def signal_out_pos signal_out_writes
          signal_out_rand_state signal_out_do_exit signal_out_stdout)
  next
    case False
    with assms mem show ?thesis
      by (simp add: same_output_def signal_out_pos signal_out_writes
          signal_out_rand_state signal_out_do_exit signal_out_stdout)
  qed
qed

lemma same_output_update:
  "same_output s1 s2 \<Longrightarrow>
   same_output (s1\<lparr>rand_state := g, do_exit := b\<rparr>) (s2\<lparr>rand_state := g, do_exit := b\<rparr>)"
  by (simp add: same_output_def)

lemma same_output_signal_out_all:
  "same_output s1 s2 \<Longrightarrow> same_output (signal_out_all C ps s1) (signal_out_all C ps s2)"
proof (induction ps arbitrary: s1 s2)
  case Nil
  then show ?case by (simp add: signal_out_all_Nil)
next
  case (Cons p ps)
  obtain i q where p: "p = (i, q)" by (cases p)
  show ?case unfolding p signal_out_all_Cons
    by (rule Cons.IH) (rule same_output_signal_out [OF Cons.prems])
qed

lemma same_output_gen_tone:
  assumes "same_output s1 s2"
  shows "same_output (gen_tone X C sg tn s1) (gen_tone X C sg tn s2)"
proof -
  have rs: "rand_state s1 = rand_state s2" and de: "do_exit s1 = do_exit s2"
    using assms by (simp_all add: same_output_def)
  show ?thesis
    unfolding gen_tone_pairs rs de
    by (intro same_output_update same_output_signal_out_all assms)
qed

lemma same_output_gen_loop:
  "same_output s1 s2 \<Longrightarrow>
   rel_sum (=) same_output (gen_loop X C sig n symbol s1) (gen_loop X C sig n symbol s2)"
proof (induction symbol arbitrary: n s1 s2)
  case Nil
  show ?case by simp
next
  case (Cons tn rest)
  have de: "do_exit s1 = do_exit s2"
    using Cons.prems by (simp add: same_output_def)
  show ?case
  proof (cases "us tn \<noteq> 0 \<and> \<not> do_exit s2")
    case True
    have "same_output (gen_tone X C (sig n) tn s1) (gen_tone X C (sig n) tn s2)"
      by (intro same_output_gen_tone Cons.prems)
    from Cons.IH [OF this] show ?thesis using True de by simp
  next
    case False
    then show ?thesis using de Cons.prems by auto
  qed
qed

text \<open>
  The blocks written, and all that the standard output receives, do not depend
  on what \<^verbatim>\<open>malloc\<close> left in the buffer.
\<close>

lemma output_ignores_malloc:
  "map_sum id writes (main_run X C (W\<lparr>malloc_result := Some m1\<rparr>) rand_seed symbol outpath) =
   map_sum id writes (main_run X C (W\<lparr>malloc_result := Some m2\<rparr>) rand_seed symbol outpath)
   \<and> map_sum id stdout_stream
       (main_run X C (W\<lparr>malloc_result := Some m1\<rparr>) rand_seed symbol outpath) =
     map_sum id stdout_stream
       (main_run X C (W\<lparr>malloc_result := Some m2\<rparr>) rand_seed symbol outpath)"
proof -
  let ?C = "C\<lparr>out_block_size := check_block_size (out_block_size C)\<rparr>"
  let ?f = "case outpath of None \<Rightarrow> Stdout_fd
            | Some p \<Rightarrow> if p = [] \<or> p = ''-'' then Stdout_fd else File_fd p"
  let ?s = "\<lambda>m. \<lparr>out_block = m, out_block_pos = 0, writes = [], printed = [], fd = ?f,
            rand_state = srand X rand_seed, do_exit = signal_early W\<rparr>"
  have "same_output (?s m1) (?s m2)" by (simp add: same_output_def)
  then have "rel_sum (=) same_output
      (gen_loop X ?C (signals W) 0 symbol (?s m1)) (gen_loop X ?C (signals W) 0 symbol (?s m2))"
    by (rule same_output_gen_loop)
  then show ?thesis
    unfolding main_run_def gen_def
    by (cases "gen_loop X ?C (signals W) 0 symbol (?s m1)";
        cases "gen_loop X ?C (signals W) 0 symbol (?s m2)")
       (simp_all add: Let_def same_output_def stdout_stream_def elapsed_ms_def)
qed

text \<open>The elapsed time of the two clock readings used below, and its text.\<close>

lemma elapsed_ms_demo:
  "elapsed_ms demo_extern demo_world = 1"
  "elapsed_ms demo_extern (demo_world\<lparr>clock_stop := 2000\<rparr>) = 2"
proof -
  have f: "fl 1000 = 1000" "fl 2000 = 2000" "fl 1000000 = 1000000" "fl 2000000 = 2000000"
    "fl 1 = 1" "fl 2 = 2"
    using fl_of_int [of 1000] fl_of_int [of 2000] fl_of_int [of 1000000] fl_of_int [of 2000000]
      fl_of_int [of 1] fl_of_int [of 2]
    by simp_all
  show "elapsed_ms demo_extern demo_world = 1"
    by (simp add: elapsed_ms_def demo_extern_def demo_world_def f)
  show "elapsed_ms demo_extern (demo_world\<lparr>clock_stop := 2000\<rparr>) = 2"
    by (simp add: elapsed_ms_def demo_extern_def demo_world_def f)
qed

lemma show_nat_digit: "n < 10 \<Longrightarrow> show_nat n = [digit n]"
  by (subst show_nat.simps) simp

lemma demo_printf_f_values:
  "demo_printf_f 1 = ''1.000000''" "demo_printf_f 2 = ''2.000000''"
  by (simp_all add: demo_printf_f_def Let_def digit_def show_nat_digit)

lemma gen_tone_stdout:
  "fd (gen_tone X C sg tn s) = fd s" "printed (gen_tone X C sg tn s) = printed s"
  unfolding gen_tone_pairs by (simp_all add: signal_out_all_stdout)

text \<open>
  C8 fails on the code. With the output path \<^verbatim>\<open>-\<close> the samples go to the
  standard output, and so does the line with the elapsed time that \<^verbatim>\<open>gen\<close>
  prints after the loop. Two runs with the same seed, timeline and
  configuration, whose clock readings differ, write the same blocks, and the
  standard output receives different bytes: the blocks followed by
  \<^verbatim>\<open>Time elapsed in ms: 1.000000\<close> in one run and by
  \<^verbatim>\<open>Time elapsed in ms: 2.000000\<close> in the other.
\<close>

theorem elapsed_time_in_stdout:
  "map_sum id writes
     (main_run demo_extern demo_config demo_world 1
        [\<lparr>hz = 0, db = -30, us = 2\<rparr>, \<lparr>hz = 0, db = 0, us = 0\<rparr>] (Some ''-'')) =
   map_sum id writes
     (main_run demo_extern demo_config (demo_world\<lparr>clock_stop := 2000\<rparr>) 1
        [\<lparr>hz = 0, db = -30, us = 2\<rparr>, \<lparr>hz = 0, db = 0, us = 0\<rparr>] (Some ''-''))
   \<and> map_sum id (\<lambda>s. (fd s, printed s))
       (main_run demo_extern demo_config demo_world 1
          [\<lparr>hz = 0, db = -30, us = 2\<rparr>, \<lparr>hz = 0, db = 0, us = 0\<rparr>] (Some ''-'')) =
     Inr (Stdout_fd, ''Time elapsed in ms: 1.000000'' @ [CHR 0x0A])
   \<and> map_sum id (\<lambda>s. (fd s, printed s))
       (main_run demo_extern demo_config (demo_world\<lparr>clock_stop := 2000\<rparr>) 1
          [\<lparr>hz = 0, db = -30, us = 2\<rparr>, \<lparr>hz = 0, db = 0, us = 0\<rparr>] (Some ''-'')) =
     Inr (Stdout_fd, ''Time elapsed in ms: 2.000000'' @ [CHR 0x0A])
   \<and> map_sum id stdout_stream
       (main_run demo_extern demo_config demo_world 1
          [\<lparr>hz = 0, db = -30, us = 2\<rparr>, \<lparr>hz = 0, db = 0, us = 0\<rparr>] (Some ''-'')) \<noteq>
     map_sum id stdout_stream
       (main_run demo_extern demo_config (demo_world\<lparr>clock_stop := 2000\<rparr>) 1
          [\<lparr>hz = 0, db = -30, us = 2\<rparr>, \<lparr>hz = 0, db = 0, us = 0\<rparr>] (Some ''-''))"
proof -
  let ?C = "demo_config\<lparr>out_block_size := check_block_size (out_block_size demo_config)\<rparr>"
  let ?s = "\<lparr>out_block = (\<lambda>a. 0), out_block_pos = 0, writes = [], printed = [],
            fd = Stdout_fd, rand_state = srand demo_extern 1, do_exit = False\<rparr>"
  let ?t = "gen_tone demo_extern ?C no_signal \<lparr>hz = 0, db = -30, us = 2\<rparr> ?s"
  let ?sym = "[\<lparr>hz = 0, db = -30, us = 2\<rparr>, \<lparr>hz = 0, db = 0, us = 0\<rparr>]"
  have p: "printf_f demo_extern = demo_printf_f" by (simp add: demo_extern_def)
  have r1: "main_run demo_extern demo_config demo_world 1 ?sym (Some ''-'') =
      Inr (?t\<lparr>printed := ''Time elapsed in ms: 1.000000'' @ [CHR 0x0A]\<rparr>)"
    unfolding main_run_def gen_def elapsed_ms_demo p demo_printf_f_values
    by (simp add: demo_world_def Let_def gen_tone_stdout)
  have r2: "main_run demo_extern demo_config (demo_world\<lparr>clock_stop := 2000\<rparr>) 1 ?sym (Some ''-'') =
      Inr (?t\<lparr>printed := ''Time elapsed in ms: 2.000000'' @ [CHR 0x0A]\<rparr>)"
    unfolding main_run_def gen_def elapsed_ms_demo p demo_printf_f_values
    by (simp add: demo_world_def Let_def gen_tone_stdout)
  show ?thesis
    unfolding r1 r2 by (simp add: stdout_stream_def gen_tone_stdout)
qed

end
